theory Spec2Isabelle
  imports Main
begin

section \<open>Order placement (\<open>create_order\<close> in \<open>src/app.py\<close>)\<close>

text \<open>
  The handler \<open>create_order\<close> of \<open>src/app.py\<close> (lines 642 to 778) reads a JSON
  request, validates it, upserts the customer, inserts one order and its line items,
  decrements the stock and commits; any exception ends in \<open>db.session.rollback()\<close>
  and a 500 response.

  Conventions of the embedding.
  \<^item> A JSON object is a record with one \<open>field\<close> per key the handler reads: the key is
    absent, holds \<open>null\<close>, or holds a value of the type the input contract gives it.
    Values of another JSON type (a string where a number is expected and so on) are
    outside this typed model.
  \<^item> Quantities, prices and amounts are Python integers (\<open>int\<close>), unbounded as Python's
    are. JSON numbers with a fraction (Python floats) are outside the model.
  \<^item> \<open>Order.total_amount\<close> and \<open>OrderItem.price_at_time\<close> are \<open>Float\<close> columns,
    \<open>OrderItem.quantity\<close> and \<open>Item.quantity_left\<close> are \<open>Integer\<close> columns. What such a
    column stores for a Python integer, and which integers it refuses, is the storage
    backend's business, which the repository does not fix: the handler takes a
    \<open>backend\<close> as a parameter. \<open>ieee_backend\<close> is the backend of Python's \<open>float\<close> and
    of 64-bit integer columns. String columns are taken to store any string.
  \<^item> A Python value that may be \<open>None\<close> is an \<open>option\<close>.
  \<^item> The database is a record of tables. The item table is keyed by its primary key.
    The storage layer keeps two copies: what is committed, and what the session's open
    transaction sees. \<open>commit\<close> and \<open>rollback\<close> copy one onto the other.
  \<^item> Columns the handler neither reads nor writes (descriptions, image URLs, category,
    catalogue price, the timestamps filled by column defaults) are left out of the rows.
  \<^item> A new row gets its primary key when it is added: one more than the largest key of
    its table (the storage layer's auto-increment, abstracted).
  \<^item> The storage layer may raise where the handler talks to it after validation, for
    reasons of its own; a \<open>fault\<close> says where. Emails are compared as strings,
    character by character.
\<close>

subsection \<open>JSON fields and Python truthiness\<close>

datatype 'a field = Absent | Null | Val 'a

text \<open>\<open>d.get(key)\<close>: \<open>None\<close> for an absent key, else the stored value.\<close>

fun get :: "'a field \<Rightarrow> 'a option" where
  "get Absent = None"
| "get Null = None"
| "get (Val v) = Some v"

text \<open>\<open>d.get(key, default)\<close>: the default only for an absent key; a stored \<open>null\<close> stays \<open>None\<close>.\<close>

fun get_default :: "'a field \<Rightarrow> 'a \<Rightarrow> 'a option" where
  "get_default Absent d = Some d"
| "get_default Null d = None"
| "get_default (Val v) d = Some v"

text \<open>\<open>not x\<close> for an integer or \<open>None\<close>: true for \<open>None\<close> and for \<open>0\<close>.\<close>

fun falsy :: "int option \<Rightarrow> bool" where
  "falsy None = True"
| "falsy (Some n) = (n = 0)"

subsection \<open>Rows and tables (the models of \<open>src/app.py\<close>, lines 84 to 148)\<close>

record item =
  name :: string
  quantity_left :: int
  is_active :: bool

record customer =
  c_id :: int
  first_name :: string
  last_name :: string
  email :: string
  phone :: "string option"
  address :: "string option"
  city :: "string option"
  postal_code :: "string option"
  country :: "string option"

record order_row =
  o_id :: int
  customer_id :: int
  total_amount :: int
  status :: string
  delivery_method :: "string option"
  store_id :: "string option"
  store_name :: "string option"
  store_address :: "string option"
  payment_method :: "string option"
  order_notes :: "string option"

record order_item =
  oi_id :: int
  order_id :: int
  item_id :: int
  quantity :: int
  price_at_time :: int

record tables =
  items :: "int \<rightharpoonup> item"
  customers :: "customer list"
  orders :: "order_row list"
  order_items :: "order_item list"

record store =
  committed :: tables
  session :: tables

definition commit :: "store \<Rightarrow> store" where
  "commit s = s\<lparr>committed := session s\<rparr>"

definition rollback :: "store \<Rightarrow> store" where
  "rollback s = s\<lparr>session := committed s\<rparr>"

text \<open>The store at the start of a request: the session holds nothing of its own.\<close>

definition fresh :: "tables \<Rightarrow> store" where
  "fresh db = \<lparr>committed = db, session = db\<rparr>"

definition next_id :: "int list \<Rightarrow> int" where
  "next_id ids = foldr max ids 0 + 1"

subsection \<open>Numeric columns\<close>

text \<open>
  \<open>float_col b n\<close> is what a \<open>Float\<close> column stores when it is given the Python integer
  \<open>n\<close>, or \<open>None\<close> when binding \<open>n\<close> raises; \<open>int_col_ok b n\<close> says whether an
  \<open>Integer\<close> column takes \<open>n\<close> (it stores \<open>n\<close> itself then; binding raises otherwise).
\<close>

record backend =
  float_col :: "int \<Rightarrow> int option"
  int_col_ok :: "int \<Rightarrow> bool"

text \<open>
  IEEE double precision, for integers: 53 significant bits, round to nearest, ties
  to even, and no value of magnitude \<open>2 ^ 1024\<close> or more. \<open>excess_bits n\<close> is the
  number of bits of \<open>n\<close> beyond the first 53.
\<close>

function excess_bits :: "nat \<Rightarrow> nat" where
  "excess_bits n = (if n < 2 ^ 53 then 0 else Suc (excess_bits (n div 2)))"
  by pat_completeness auto
termination
  by (relation "measure (\<lambda>n. n)") auto

declare excess_bits.simps [simp del]

definition round_half_even :: "nat \<Rightarrow> nat \<Rightarrow> nat" where
  "round_half_even n d =
    (let q = n div d; r = n mod d
     in if 2 * r < d then q
        else if d < 2 * r then q + 1
        else if even q then q else q + 1)"

definition double_of_nat :: "nat \<Rightarrow> nat option" where
  "double_of_nat n =
    (let e = excess_bits n; m = round_half_even n (2 ^ e) * 2 ^ e
     in if m < 2 ^ 1024 then Some m else None)"

definition double_of_int :: "int \<Rightarrow> int option" where
  "double_of_int x =
    (if 0 \<le> x then map_option int (double_of_nat (nat x))
     else map_option (\<lambda>m. - int m) (double_of_nat (nat (- x))))"

definition ieee_backend :: backend where
  "ieee_backend =
    \<lparr>float_col = double_of_int, int_col_ok = (\<lambda>n. - (2 ^ 63) \<le> n \<and> n < 2 ^ 63)\<rparr>"

subsection \<open>The request\<close>

record line_item =
  li_item_id :: "int field"
  li_quantity :: "int field"
  li_price :: "int field"

record customer_data =
  cd_first_name :: "string field"
  cd_last_name :: "string field"
  cd_email :: "string field"
  cd_phone :: "string field"
  cd_address :: "string field"
  cd_city :: "string field"
  cd_postal_code :: "string field"
  cd_country :: "string field"

record store_info =
  storeid :: "string field"
  storename :: "string field"
  storeaddress :: "string field"

record request =
  req_customer :: "customer_data field"
  req_items :: "line_item list field"
  req_payment_method :: "string field"
  req_notes :: "string field"
  req_delivery_method :: "string field"
  req_store_info :: "store_info field"

subsection \<open>Responses\<close>

datatype error =
    MissingField string
  | MissingCustomerField string
  | EmptyOrder
  | IncompleteItem
  | ItemNotFound int
  | ItemInactive string
  | InsufficientStock string int
  | CreateFailed

text \<open>The HTTP status the handler pairs with each error body; success is 201.\<close>

fun status_code :: "error \<Rightarrow> nat" where
  "status_code (ItemNotFound i) = 404"
| "status_code CreateFailed = 500"
| "status_code e = 400"

text \<open>
  Where the storage layer raises for reasons of its own, if it does: at the customer
  query of line 701, at the flush of line 728, at the flush of line 747, at the commit of
  line 767, or after the commit, when line 771 reads \<open>order.id\<close> from the order the commit
  has expired and the session loads it again.
\<close>

datatype fault =
    NoFault | CustomerQueryFails | CustomerFlushFails | OrderFlushFails | CommitFails
  | OrderReloadFails

text \<open>
  The outcome of the checks before the item loop: an early \<open>return\<close> with an error, an
  exception, or the values the rest of the handler uses.
\<close>

datatype 'a check = Reject error | Raise | Pass 'a

subsection \<open>Validation (lines 649 to 698)\<close>

text \<open>
  The customer values the handler reads again after the check
  (\<open>customer_data['first_name']\<close> and so on): each required key was just seen present
  and truthy, so the subscript yields the value the check saw.
\<close>

record valid_customer =
  vc_first_name :: string
  vc_last_name :: string
  vc_email :: string
  vc_phone :: string
  vc_address :: string
  vc_city :: string
  vc_postal_code :: "string option"
  vc_country :: "string option"

text \<open>\<open>field not in customer_data or not customer_data[field]\<close>, for one field.\<close>

fun required_str :: "string \<Rightarrow> string field \<Rightarrow> error + string" where
  "required_str n (Val s) = (if s = [] then Inl (MissingCustomerField n) else Inr s)"
| "required_str n Absent = Inl (MissingCustomerField n)"
| "required_str n Null = Inl (MissingCustomerField n)"

definition check_customer :: "customer_data \<Rightarrow> error + valid_customer" where
  "check_customer cd =
    (case required_str ''first_name'' (cd_first_name cd) of Inl e \<Rightarrow> Inl e | Inr fn \<Rightarrow>
    (case required_str ''last_name'' (cd_last_name cd) of Inl e \<Rightarrow> Inl e | Inr ln \<Rightarrow>
    (case required_str ''email'' (cd_email cd) of Inl e \<Rightarrow> Inl e | Inr em \<Rightarrow>
    (case required_str ''phone'' (cd_phone cd) of Inl e \<Rightarrow> Inl e | Inr ph \<Rightarrow>
    (case required_str ''address'' (cd_address cd) of Inl e \<Rightarrow> Inl e | Inr ad \<Rightarrow>
    (case required_str ''city'' (cd_city cd) of Inl e \<Rightarrow> Inl e | Inr ci \<Rightarrow>
       Inr \<lparr>vc_first_name = fn, vc_last_name = ln, vc_email = em, vc_phone = ph,
            vc_address = ad, vc_city = ci,
            vc_postal_code = get_default (cd_postal_code cd) '''',
            vc_country = get_default (cd_country cd) ''TW''\<rparr>))))))"

text \<open>
  Lines 650 to 668. A \<open>null\<close> customer passes the \<open>in\<close> test of line 652 and makes
  \<open>field not in customer_data\<close> raise a TypeError. A \<open>null\<close> or empty item list is
  falsy at line 667.
\<close>

definition check_request :: "request \<Rightarrow> (valid_customer \<times> line_item list) check" where
  "check_request req =
    (if req_customer req = Absent then Reject (MissingField ''customer'')
     else if req_items req = Absent then Reject (MissingField ''items'')
     else if req_payment_method req = Absent then Reject (MissingField ''payment_method'')
     else case req_customer req of
         Val cd \<Rightarrow>
           (case check_customer cd of
              Inl e \<Rightarrow> Reject e
            | Inr vc \<Rightarrow>
               (case req_items req of
                  Val (d # ds) \<Rightarrow> Pass (vc, d # ds)
                | _ \<Rightarrow> Reject EmptyOrder))
       | _ \<Rightarrow> Raise)"

text \<open>
  An entry of the handler's \<open>order_items\<close> list. \<open>ol_item\<close> is the primary key of the
  \<open>Item\<close> object the entry refers to: two entries for one key refer to one object of the
  session, so the stock update of line 765 reads the stock the previous update left.
\<close>

record order_line =
  ol_item :: int
  ol_quantity :: int
  ol_price :: int

text \<open>The body of the loop of lines 674 to 698, for one line item.\<close>

definition check_line :: "(int \<rightharpoonup> item) \<Rightarrow> line_item \<Rightarrow> error + order_line" where
  "check_line its d =
    (let item_id = get (li_item_id d);
         quantity = get_default (li_quantity d) 1;
         price = get (li_price d)
     in if falsy item_id \<or> falsy quantity \<or> falsy price then Inl IncompleteItem
        else case (item_id, quantity, price) of
          (Some i, Some q, Some p) \<Rightarrow>
            (case its i of
               None \<Rightarrow> Inl (ItemNotFound i)
             | Some it \<Rightarrow>
                 if \<not> is_active it then Inl (ItemInactive (name it))
                 else if quantity_left it < q
                   then Inl (InsufficientStock (name it) (quantity_left it))
                 else Inr \<lparr>ol_item = i, ol_quantity = q, ol_price = p\<rparr>)
        | _ \<Rightarrow> Inl IncompleteItem)"

text \<open>The loop itself, with its two accumulators \<open>total_amount\<close> and \<open>order_items\<close>.\<close>

fun validate_items ::
  "(int \<rightharpoonup> item) \<Rightarrow> line_item list \<Rightarrow> int \<Rightarrow> order_line list
    \<Rightarrow> error + int \<times> order_line list" where
  "validate_items its [] tot acc = Inr (tot, acc)"
| "validate_items its (d # ds) tot acc =
    (case check_line its d of
       Inl e \<Rightarrow> Inl e
     | Inr l \<Rightarrow> validate_items its ds (tot + ol_price l * ol_quantity l) (acc @ [l]))"

subsection \<open>Effects (lines 700 to 771)\<close>

fun update_first :: "('a \<Rightarrow> bool) \<Rightarrow> ('a \<Rightarrow> 'a) \<Rightarrow> 'a list \<Rightarrow> 'a list" where
  "update_first P f [] = []"
| "update_first P f (x # xs) = (if P x then f x # xs else x # update_first P f xs)"

text \<open>
  Lines 701 to 728: the first customer with the request's email is updated in place;
  when there is none, a new row is added. The result is the table and \<open>customer.id\<close>.
  An update writes a \<open>None\<close> as it is. An insert leaves a \<open>None\<close> attribute out of the
  statement, so the column's default is stored: \<open>'TW'\<close> for \<open>country\<close> (line 105),
  nothing for \<open>postal_code\<close>.
\<close>

definition upsert_customer :: "valid_customer \<Rightarrow> customer list \<Rightarrow> customer list \<times> int" where
  "upsert_customer vc cs =
    (case find (\<lambda>c. email c = vc_email vc) cs of
       Some c \<Rightarrow>
         (update_first (\<lambda>c. email c = vc_email vc)
            (\<lambda>c. c\<lparr>first_name := vc_first_name vc,
                   last_name := vc_last_name vc,
                   phone := Some (vc_phone vc),
                   address := Some (vc_address vc),
                   city := Some (vc_city vc),
                   postal_code := vc_postal_code vc,
                   country := vc_country vc\<rparr>) cs,
          c_id c)
     | None \<Rightarrow>
         (let new_id = next_id (map c_id cs)
          in (cs @ [\<lparr>c_id = new_id,
                     first_name = vc_first_name vc,
                     last_name = vc_last_name vc,
                     email = vc_email vc,
                     phone = Some (vc_phone vc),
                     address = Some (vc_address vc),
                     city = Some (vc_city vc),
                     postal_code = vc_postal_code vc,
                     country = (case vc_country vc of None \<Rightarrow> Some ''TW'' | Some c \<Rightarrow> Some c)\<rparr>],
              new_id)))"

text \<open>\<open>store_info.get(key) if store_info else None\<close>, lines 740 to 742.\<close>

definition store_field :: "(store_info \<Rightarrow> string field) \<Rightarrow> request \<Rightarrow> string option" where
  "store_field sel req = (case req_store_info req of Val si \<Rightarrow> get (sel si) | _ \<Rightarrow> None)"

text \<open>
  Lines 735 to 746: the new order row. \<open>tot\<close> is the total as the \<open>Float\<close> column
  stores it.
\<close>

definition new_order :: "request \<Rightarrow> int \<Rightarrow> int \<Rightarrow> int \<Rightarrow> order_row" where
  "new_order req oid cust_id tot =
    \<lparr>o_id = oid, customer_id = cust_id, total_amount = tot, status = ''pending'',
     delivery_method = get_default (req_delivery_method req) '''',
     store_id = store_field storeid req,
     store_name = store_field storename req,
     store_address = store_field storeaddress req,
     payment_method = get (req_payment_method req),
     order_notes = get_default (req_notes req) ''''\<rparr>"

text \<open>
  The loop of lines 750 to 765: one \<open>OrderItem\<close> object and one stock update per entry,
  with the Python values; nothing is sent to the database before the commit.
\<close>

fun add_order_items :: "int \<Rightarrow> order_line list \<Rightarrow> tables \<Rightarrow> tables" where
  "add_order_items oid [] t = t"
| "add_order_items oid (l # ls) t =
    add_order_items oid ls
      (t\<lparr>order_items := order_items t @
            [\<lparr>oi_id = next_id (map oi_id (order_items t)), order_id = oid,
              item_id = ol_item l, quantity = ol_quantity l, price_at_time = ol_price l\<rparr>],
         items := (items t)(ol_item l :=
            map_option (\<lambda>it. it\<lparr>quantity_left := quantity_left it - ol_quantity l\<rparr>)
              (items t (ol_item l)))\<rparr>)"

text \<open>
  The flush inside the commit of line 767 sends the new order items and the changed
  stocks. A row is stored with its price as the \<open>Float\<close> column holds it; binding raises
  when the column refuses the price, the quantity, or the new stock of an ordered item.
  \<open>t2\<close> is the session before the loop, \<open>t3\<close> after it.
\<close>

definition store_row :: "backend \<Rightarrow> order_item \<Rightarrow> order_item option" where
  "store_row b r =
    (if int_col_ok b (quantity r)
     then (case float_col b (price_at_time r) of
             None \<Rightarrow> None
           | Some p \<Rightarrow> Some (r\<lparr>price_at_time := p\<rparr>))
     else None)"

definition stock_ok :: "backend \<Rightarrow> (int \<rightharpoonup> item) \<Rightarrow> int \<Rightarrow> bool" where
  "stock_ok b its k = (case its k of None \<Rightarrow> True | Some it \<Rightarrow> int_col_ok b (quantity_left it))"

definition flush_order_items ::
  "backend \<Rightarrow> order_line list \<Rightarrow> tables \<Rightarrow> tables \<Rightarrow> tables option" where
  "flush_order_items b lines t2 t3 =
    (if list_all (\<lambda>l. stock_ok b (items t3) (ol_item l)) lines
     then (case those (map (store_row b) (drop (length (order_items t2)) (order_items t3))) of
             None \<Rightarrow> None
           | Some rows \<Rightarrow> Some (t3\<lparr>order_items := order_items t2 @ rows\<rparr>))
     else None)"

text \<open>
  Lines 700 to 771. The result is the new order's id, or \<open>None\<close> when an exception was
  raised, together with the store as the exception left it. The flush of line 747
  raises when the \<open>Float\<close> column refuses the total.
\<close>

definition persist ::
  "backend \<Rightarrow> fault \<Rightarrow> store \<Rightarrow> request \<Rightarrow> valid_customer \<Rightarrow> int \<Rightarrow> order_line list
    \<Rightarrow> int option \<times> store" where
  "persist b f s req vc tot lines =
    (if f = CustomerQueryFails then (None, s)
     else
       let t = session s;
           (cs, cust_id) = upsert_customer vc (customers t);
           t1 = t\<lparr>customers := cs\<rparr>
       in if f = CustomerFlushFails then (None, s\<lparr>session := t1\<rparr>)
          else
            case float_col b tot of
              None \<Rightarrow> (None, s\<lparr>session := t1\<rparr>)
            | Some stored \<Rightarrow>
               (let oid = next_id (map o_id (orders t1));
                    t2 = t1\<lparr>orders := orders t1 @ [new_order req oid cust_id stored]\<rparr>
                in if f = OrderFlushFails then (None, s\<lparr>session := t2\<rparr>)
                   else
                     let t3 = add_order_items oid lines t2
                     in case flush_order_items b lines t2 t3 of
                          None \<Rightarrow> (None, s\<lparr>session := t3\<rparr>)
                        | Some t4 \<Rightarrow>
                            if f = CommitFails then (None, s\<lparr>session := t4\<rparr>)
                            else if f = OrderReloadFails
                              then (None, commit (s\<lparr>session := t4\<rparr>))
                            else (Some oid, commit (s\<lparr>session := t4\<rparr>))))"

subsection \<open>The handler\<close>

text \<open>
  The result is the response (an error, or the new order's id and the total amount) and the
  store after the request. The total in the response is the Python integer of line 693,
  not the stored one. The \<open>except\<close> branch of lines 775 to 778 rolls the session back,
  which undoes nothing that is committed, and answers 500.
\<close>

definition create_order ::
  "backend \<Rightarrow> fault \<Rightarrow> store \<Rightarrow> request \<Rightarrow> (error + int \<times> int) \<times> store" where
  "create_order b f s req =
    (case check_request req of
       Reject e \<Rightarrow> (Inl e, s)
     | Raise \<Rightarrow> (Inl CreateFailed, rollback s)
     | Pass (vc, ds) \<Rightarrow>
        (case validate_items (items (session s)) ds 0 [] of
           Inl e \<Rightarrow> (Inl e, s)
         | Inr (tot, lines) \<Rightarrow>
            (case persist b f s req vc tot lines of
               (None, s') \<Rightarrow> (Inl CreateFailed, rollback s')
             | (Some oid, s') \<Rightarrow> (Inr (oid, tot), s'))))"

subsection \<open>Vocabulary of the properties\<close>

text \<open>A request passes all validation: no check of lines 649 to 698 returns or raises.\<close>

definition passes_validation :: "tables \<Rightarrow> request \<Rightarrow> bool" where
  "passes_validation db req =
    (case check_request req of
       Pass (vc, ds) \<Rightarrow> \<not> isl (validate_items (items db) ds 0 [])
     | _ \<Rightarrow> False)"

text \<open>
  A request passes the checks of lines 649 to 668: the three top-level keys are present,
  the customer is an object with its six required fields truthy, and the item list is not
  empty.
\<close>

definition passes_header :: "request \<Rightarrow> bool" where
  "passes_header req = (case check_request req of Pass p \<Rightarrow> True | _ \<Rightarrow> False)"

text \<open>Unit price times quantity of a submitted line item, as the loop reads them.\<close>

definition line_amount :: "line_item \<Rightarrow> int" where
  "line_amount d =
    (case (get (li_price d), get_default (li_quantity d) 1) of
       (Some p, Some q) \<Rightarrow> p * q
     | _ \<Rightarrow> 0)"

text \<open>The quantity a request orders of the item with key \<open>k\<close>, over all its line items.\<close>

definition ordered_quantity :: "line_item list \<Rightarrow> int \<Rightarrow> int" where
  "ordered_quantity ds k =
    sum_list (map (\<lambda>d. case get_default (li_quantity d) 1 of Some q \<Rightarrow> q | None \<Rightarrow> 0)
      (filter (\<lambda>d. get (li_item_id d) = Some k) ds))"

text \<open>
  The backend refuses none of the numbers of an order: the total and every price go
  into the \<open>Float\<close> columns, every quantity and the new stock of every ordered item into
  the \<open>Integer\<close> columns.
\<close>

definition bindable :: "backend \<Rightarrow> tables \<Rightarrow> line_item list \<Rightarrow> bool" where
  "bindable b db ds =
    (float_col b (sum_list (map line_amount ds)) \<noteq> None \<and>
     list_all (\<lambda>d.
        (case get (li_price d) of Some p \<Rightarrow> float_col b p \<noteq> None | None \<Rightarrow> False) \<and>
        (case get_default (li_quantity d) 1 of Some q \<Rightarrow> int_col_ok b q | None \<Rightarrow> False) \<and>
        (case get (li_item_id d) of
           Some k \<Rightarrow>
             (case items db k of
                Some it \<Rightarrow> int_col_ok b (quantity_left it - ordered_quantity ds k)
              | None \<Rightarrow> False)
         | None \<Rightarrow> False)) ds)"

text \<open>The \<open>Float\<close> column stores every supplied price as it is.\<close>

definition exact_prices :: "backend \<Rightarrow> line_item list \<Rightarrow> bool" where
  "exact_prices b ds =
    list_all (\<lambda>d. case get (li_price d) of Some p \<Rightarrow> float_col b p = Some p | None \<Rightarrow> False) ds"

text \<open>
  The backend stores the numbers of an order as they are: it refuses none, and the
  \<open>Float\<close> columns hold the total and every price unchanged.
\<close>

definition storable :: "backend \<Rightarrow> tables \<Rightarrow> line_item list \<Rightarrow> bool" where
  "storable b db ds =
    (float_col b (sum_list (map line_amount ds)) = Some (sum_list (map line_amount ds)) \<and>
     list_all (\<lambda>d.
        (case get (li_price d) of Some p \<Rightarrow> float_col b p = Some p | None \<Rightarrow> False) \<and>
        (case get_default (li_quantity d) 1 of Some q \<Rightarrow> int_col_ok b q | None \<Rightarrow> False) \<and>
        (case get (li_item_id d) of
           Some k \<Rightarrow>
             (case items db k of
                Some it \<Rightarrow> int_col_ok b (quantity_left it - ordered_quantity ds k)
              | None \<Rightarrow> False)
         | None \<Rightarrow> False)) ds)"

subsection \<open>Example data\<close>

definition item_A :: item where
  "item_A = \<lparr>name = ''A'', quantity_left = 5, is_active = True\<rparr>"

definition item_B :: item where
  "item_B = \<lparr>name = ''B'', quantity_left = 2, is_active = True\<rparr>"

definition alice :: customer where
  "alice = \<lparr>c_id = 1, first_name = ''Alice'', last_name = ''Lin'', email = ''a@x'',
     phone = Some ''0911'', address = Some ''Old Road'', city = Some ''Taipei'',
     postal_code = Some ''100'', country = Some ''JP''\<rparr>"

definition shop :: tables where
  "shop = \<lparr>items = [1 \<mapsto> item_A, 2 \<mapsto> item_B], customers = [alice], orders = [],
     order_items = []\<rparr>"

definition busy_shop :: tables where
  "busy_shop = shop
     \<lparr>orders := [\<lparr>o_id = 1, customer_id = 1, total_amount = 20, status = ''pending'',
          delivery_method = Some '''', store_id = None, store_name = None,
          store_address = None, payment_method = Some ''cash'', order_notes = Some ''''\<rparr>],
      order_items := [\<lparr>oi_id = 1, order_id = 1, item_id = 1, quantity = 2,
          price_at_time = 10\<rparr>]\<rparr>"

definition contact :: "string \<Rightarrow> customer_data" where
  "contact e = \<lparr>cd_first_name = Val ''Ann'', cd_last_name = Val ''Wu'', cd_email = Val e,
     cd_phone = Val ''0922'', cd_address = Val ''New Road'', cd_city = Val ''Tainan'',
     cd_postal_code = Absent, cd_country = Absent\<rparr>"

definition line :: "int \<Rightarrow> int \<Rightarrow> int \<Rightarrow> line_item" where
  "line i q p = \<lparr>li_item_id = Val i, li_quantity = Val q, li_price = Val p\<rparr>"

definition order_request :: "string \<Rightarrow> line_item list \<Rightarrow> request" where
  "order_request e ds = \<lparr>req_customer = Val (contact e), req_items = Val ds,
     req_payment_method = Val ''cash'', req_notes = Absent, req_delivery_method = Absent,
     req_store_info = Absent\<rparr>"

section \<open>Properties\<close>

subsection \<open>Auxiliary facts\<close>

lemmas handler_defs =
  create_order_def check_request_def check_customer_def check_line_def persist_def
  upsert_customer_def new_order_def store_field_def next_id_def commit_def rollback_def
  fresh_def store_row_def stock_ok_def flush_order_items_def
  passes_validation_def passes_header_def line_amount_def ordered_quantity_def storable_def
  bindable_def exact_prices_def Let_def

lemmas ieee_defs =
  ieee_backend_def double_of_int_def double_of_nat_def round_half_even_def
  excess_bits.simps

lemmas example_defs =
  item_A_def item_B_def alice_def shop_def busy_shop_def contact_def line_def order_request_def

lemma foldr_max_ge: "i \<in> set ids \<Longrightarrow> i \<le> foldr max ids (0::int)"
  by (induction ids) auto

lemma next_id_fresh: "i \<in> set ids \<Longrightarrow> i < next_id ids"
  using foldr_max_ge [of i ids] by (simp add: next_id_def)

lemma check_line_Inr:
  assumes "check_line its d = Inr l"
  shows "get (li_item_id d) = Some (ol_item l)"
    and "get_default (li_quantity d) 1 = Some (ol_quantity l)"
    and "get (li_price d) = Some (ol_price l)"
    and "\<exists>it. its (ol_item l) = Some it \<and> is_active it \<and> ol_quantity l \<le> quantity_left it"
  using assms
  by (auto simp: check_line_def Let_def split: if_splits option.splits)

lemma validate_items_acc:
  "validate_items its ds tot acc =
    (case validate_items its ds 0 [] of
       Inl e \<Rightarrow> Inl e
     | Inr (t, ls) \<Rightarrow> Inr (tot + t, acc @ ls))"
proof (induction ds arbitrary: tot acc)
  case Nil
  then show ?case by simp
next
  case (Cons d ds)
  show ?case
  proof (cases "check_line its d")
    case (Inl e)
    then show ?thesis by simp
  next
    case (Inr l)
    show ?thesis
      using Cons.IH [of "tot + ol_price l * ol_quantity l" "acc @ [l]"]
        Cons.IH [of "ol_price l * ol_quantity l" "[l]"] Inr
      by (simp split: sum.splits)
  qed
qed

lemma validate_items_Inr:
  "validate_items its ds 0 [] = Inr (t, ls) \<Longrightarrow>
    map (check_line its) ds = map Inr ls \<and>
    t = sum_list (map (\<lambda>l. ol_price l * ol_quantity l) ls)"
proof (induction ds arbitrary: t ls)
  case Nil
  then show ?case by simp
next
  case (Cons d ds)
  from Cons.prems obtain l where l: "check_line its d = Inr l"
    by (cases "check_line its d") auto
  with Cons.prems have "validate_items its ds (ol_price l * ol_quantity l) [l] = Inr (t, ls)"
    by simp
  then obtain t' ls' where r: "validate_items its ds 0 [] = Inr (t', ls')"
    and t: "t = ol_price l * ol_quantity l + t'" and ls: "ls = l # ls'"
    by (subst (asm) validate_items_acc) (auto split: sum.splits)
  from Cons.IH [OF r] l t ls show ?case by simp
qed

lemma validate_items_first_failure:
  "\<forall>x\<in>set pre. \<not> isl (check_line its x) \<Longrightarrow> check_line its d = Inl e \<Longrightarrow>
    validate_items its (pre @ d # post) tot acc = Inl e"
proof (induction pre arbitrary: tot acc)
  case Nil
  then show ?case by simp
next
  case (Cons x pre)
  then show ?case by (cases "check_line its x") auto
qed

lemma validate_items_all_pass:
  "validate_items its ds tot acc = Inr r \<Longrightarrow> d \<in> set ds \<Longrightarrow> \<not> isl (check_line its d)"
proof (induction ds arbitrary: tot acc)
  case Nil
  then show ?case by simp
next
  case (Cons x ds)
  then show ?case by (cases "check_line its x") auto
qed

lemma add_order_items_customers [simp]: "customers (add_order_items oid ls t) = customers t"
  by (induction ls arbitrary: t) auto

lemma add_order_items_orders [simp]: "orders (add_order_items oid ls t) = orders t"
  by (induction ls arbitrary: t) auto


lemma add_order_items_stock:
  "items (add_order_items oid ls t) k =
     map_option (\<lambda>it. it\<lparr>quantity_left := quantity_left it -
        sum_list (map ol_quantity (filter (\<lambda>l. ol_item l = k) ls))\<rparr>) (items t k)"
proof (induction ls arbitrary: t)
  case Nil
  then show ?case by (cases "items t k") simp_all
next
  case (Cons l ls)
  show ?case
    by (cases "items t k") (auto simp: Cons.IH diff_diff_eq)
qed

lemma rollback_fresh [simp]: "rollback (fresh db) = fresh db"
  by (simp add: rollback_def fresh_def)

lemma session_fresh [simp]: "session (fresh db) = db"
  by (simp add: fresh_def)

lemma committed_fresh [simp]: "committed (fresh db) = db"
  by (simp add: fresh_def)

lemma rollback_session_update [simp]: "rollback (s\<lparr>session := t\<rparr>) = rollback s"
  by (simp add: rollback_def)

lemma commit_fresh_update: "commit (fresh db\<lparr>session := t\<rparr>) = fresh t"
  by (simp add: commit_def fresh_def)

lemma required_str_Inr: "required_str n f = Inr s \<Longrightarrow> f = Val s \<and> s \<noteq> []"
  by (cases f) (auto split: if_splits)

lemma check_customer_Inr:
  assumes "check_customer cd = Inr vc"
  shows "cd_first_name cd = Val (vc_first_name vc)" and "vc_first_name vc \<noteq> []"
    and "cd_last_name cd = Val (vc_last_name vc)" and "vc_last_name vc \<noteq> []"
    and "cd_email cd = Val (vc_email vc)" and "vc_email vc \<noteq> []"
    and "cd_phone cd = Val (vc_phone vc)" and "vc_phone vc \<noteq> []"
    and "cd_address cd = Val (vc_address vc)" and "vc_address vc \<noteq> []"
    and "cd_city cd = Val (vc_city vc)" and "vc_city vc \<noteq> []"
    and "vc_postal_code vc = get_default (cd_postal_code cd) ''''"
    and "vc_country vc = get_default (cd_country cd) ''TW''"
  using assms
  by (auto simp: check_customer_def split: sum.splits dest!: required_str_Inr)

lemma check_request_Pass:
  assumes "check_request req = Pass (vc, ds)"
  shows "req_items req = Val ds" and "ds \<noteq> []"
    and "\<exists>cd. req_customer req = Val cd \<and> check_customer cd = Inr vc"
    and "req_payment_method req \<noteq> Absent"
  using assms
  by (auto simp: check_request_def split: if_splits field.splits sum.splits list.splits)


lemma lines_of_request:
  "map (check_line its) ds = map Inr ls \<Longrightarrow>
    map (\<lambda>d. (get (li_item_id d), get_default (li_quantity d) 1, get (li_price d))) ds =
    map (\<lambda>l. (Some (ol_item l), Some (ol_quantity l), Some (ol_price l))) ls"
proof (induction ds arbitrary: ls)
  case Nil
  then show ?case by simp
next
  case (Cons d ds)
  then obtain l ls' where ls: "ls = l # ls'" and l: "check_line its d = Inr l"
    and rest: "map (check_line its) ds = map Inr ls'"
    by (cases ls) auto
  from check_line_Inr(1-3) [OF l] Cons.IH [OF rest] ls show ?case by simp
qed



lemma passes_headerE:
  assumes "passes_header req" and "req_items req = Val ds"
  obtains vc where "check_request req = Pass (vc, ds)"
proof -
  from assms(1) obtain p where p: "check_request req = Pass p"
    by (auto simp: passes_header_def split: check.splits)
  obtain vc ds' where "p = (vc, ds')" by (cases p)
  with p check_request_Pass(1) [of req vc ds'] assms(2) that show thesis by simp
qed



lemma update_first_split:
  "find P xs = Some c \<Longrightarrow>
    \<exists>pre post. xs = pre @ c # post \<and> (\<forall>x\<in>set pre. \<not> P x) \<and> P c \<and>
      update_first P f xs = pre @ f c # post"
proof (induction xs)
  case Nil
  then show ?case by simp
next
  case (Cons x xs)
  show ?case
  proof (cases "P x")
    case True
    with Cons.prems have "x = c" by simp
    with True show ?thesis by (intro exI [of _ "[]"] exI [of _ xs]) simp
  next
    case False
    with Cons.prems have "find P xs = Some c" by simp
    from Cons.IH [OF this] obtain pre post where
      "xs = pre @ c # post" "\<forall>x\<in>set pre. \<not> P x" "P c" "update_first P f xs = pre @ f c # post"
      by blast
    with False show ?thesis by (intro exI [of _ "x # pre"] exI [of _ post]) simp
  qed
qed



lemma sum_list_filter_distinct:
  assumes "distinct (map g xs)"
  shows "sum_list (map h (filter (\<lambda>x. g x = k) xs)) =
    (case find (\<lambda>x. g x = k) xs of None \<Rightarrow> 0 | Some x \<Rightarrow> (h x :: int))"
  using assms
proof (induction xs)
  case Nil
  then show ?case by simp
next
  case (Cons x xs)
  show ?case
  proof (cases "g x = k")
    case True
    from Cons.prems have "g x \<notin> g ` set xs" by simp
    with True have "\<forall>y\<in>set xs. g y \<noteq> k" by (metis imageI)
    then have "filter (\<lambda>x. g x = k) xs = []" by (simp add: filter_empty_conv)
    with True show ?thesis by simp
  next
    case False
    with Cons show ?thesis by simp
  qed
qed

lemma excess_bits_small: "n < 2 ^ 53 \<Longrightarrow> excess_bits n = 0"
  by (simp add: excess_bits.simps)

lemma double_of_nat_exact: "n < 2 ^ 53 \<Longrightarrow> double_of_nat n = Some n"
proof -
  assume n: "n < 2 ^ 53"
  have "(2::nat) ^ 53 < 2 ^ 1024" by (rule power_strict_increasing) simp_all
  with n have "n < 2 ^ 1024" by (rule less_trans)
  with n show ?thesis
    by (simp add: double_of_nat_def excess_bits_small round_half_even_def)
qed

lemma double_of_int_exact: "\<bar>x\<bar> < 2 ^ 53 \<Longrightarrow> double_of_int x = Some x"
proof (cases "0 \<le> x")
  case True
  assume "\<bar>x\<bar> < 2 ^ 53"
  with True have "nat x < 2 ^ 53" by (simp add: nat_less_iff)
  from double_of_nat_exact [OF this] True show ?thesis by (simp add: double_of_int_def)
next
  case False
  assume "\<bar>x\<bar> < 2 ^ 53"
  with False have "nat (- x) < 2 ^ 53" by (simp add: nat_less_iff)
  from double_of_nat_exact [OF this] False show ?thesis by (simp add: double_of_int_def)
qed

lemma those_map_Some:
  "those (map f xs) = Some ys \<longleftrightarrow> map f xs = map Some ys"
proof (induction xs arbitrary: ys)
  case Nil
  then show ?case by auto
next
  case (Cons x xs)
  show ?case
  proof (cases "f x")
    case None
    then show ?thesis by auto
  next
    case (Some y)
    with Cons.IH show ?thesis
      by (cases ys) (auto split: option.splits)
  qed
qed

lemma flush_order_items_Some:
  assumes "flush_order_items b lines t2 t3 = Some t4"
  shows "customers t4 = customers t3" and "orders t4 = orders t3" and "items t4 = items t3"
    and "\<exists>rows. order_items t4 = order_items t2 @ rows \<and>
           map (store_row b) (drop (length (order_items t2)) (order_items t3)) = map Some rows"
    and "\<forall>l\<in>set lines. stock_ok b (items t3) (ol_item l)"
  using assms
  by (auto simp: flush_order_items_def those_map_Some list_all_iff
      split: if_splits option.splits)



lemma persist_Some:
  assumes "persist b f s req vc tot lines = (Some oid, s')"
  shows "f = NoFault \<and> oid = next_id (map o_id (orders (session s))) \<and>
    (\<exists>stored t4. float_col b tot = Some stored \<and>
       flush_order_items b lines
         (session s\<lparr>customers := fst (upsert_customer vc (customers (session s))),
            orders := orders (session s) @
              [new_order req oid (snd (upsert_customer vc (customers (session s)))) stored]\<rparr>)
         (add_order_items oid lines
           (session s\<lparr>customers := fst (upsert_customer vc (customers (session s))),
              orders := orders (session s) @
                [new_order req oid (snd (upsert_customer vc (customers (session s)))) stored]\<rparr>))
         = Some t4 \<and>
       s' = commit (s\<lparr>session := t4\<rparr>))"
  using assms
  by (cases f) (auto simp: persist_def Let_def split_beta split: if_splits option.splits)





lemma rollback_commit [simp]: "rollback (commit s) = commit s"
  by (simp add: rollback_def commit_def)




lemma create_order_accepted:
  assumes "create_order b f (fresh db) req = (Inr (oid, tot), s')"
  shows "\<exists>vc ds lines stored t4. check_request req = Pass (vc, ds) \<and>
      validate_items (items db) ds 0 [] = Inr (tot, lines) \<and> f = NoFault \<and>
      oid = next_id (map o_id (orders db)) \<and>
      float_col b tot = Some stored \<and>
      flush_order_items b lines
         (db\<lparr>customers := fst (upsert_customer vc (customers db)),
            orders := orders db @
              [new_order req oid (snd (upsert_customer vc (customers db))) stored]\<rparr>)
         (add_order_items oid lines
           (db\<lparr>customers := fst (upsert_customer vc (customers db)),
              orders := orders db @
                [new_order req oid (snd (upsert_customer vc (customers db))) stored]\<rparr>))
         = Some t4 \<and>
      s' = fresh t4"
proof (cases "check_request req")
  case (Reject e)
  with assms show ?thesis by (simp add: create_order_def)
next
  case Raise
  with assms show ?thesis by (simp add: create_order_def)
next
  case (Pass p)
  obtain vc ds where p: "p = (vc, ds)" by (cases p)
  show ?thesis
  proof (cases "validate_items (items db) ds 0 []")
    case (Inl e)
    with assms Pass p show ?thesis by (simp add: create_order_def)
  next
    case (Inr r)
    obtain t lines where r: "r = (t, lines)" by (cases r)
    obtain res s1 where ps: "persist b f (fresh db) req vc t lines = (res, s1)"
      by (cases "persist b f (fresh db) req vc t lines")
    with assms Pass p Inr r have res: "res = Some oid" and t: "t = tot" and s1: "s1 = s'"
      by (auto simp: create_order_def split: option.splits)
    from persist_Some [of b f "fresh db" req vc t lines oid s1] ps res
    obtain stored t4 where "f = NoFault" "oid = next_id (map o_id (orders db))"
      "float_col b t = Some stored"
      "flush_order_items b lines
         (db\<lparr>customers := fst (upsert_customer vc (customers db)),
            orders := orders db @
              [new_order req oid (snd (upsert_customer vc (customers db))) stored]\<rparr>)
         (add_order_items oid lines
           (db\<lparr>customers := fst (upsert_customer vc (customers db)),
              orders := orders db @
                [new_order req oid (snd (upsert_customer vc (customers db))) stored]\<rparr>))
         = Some t4"
      "s1 = commit (fresh db\<lparr>session := t4\<rparr>)"
      by auto
    with Pass p Inr r t s1 show ?thesis
      by (auto simp: commit_fresh_update)
  qed
qed

lemma accepted_customers:
  assumes "create_order b f (fresh db) req = (Inr (oid, tot), s')"
    and "req_customer req = Val cd"
  shows "\<exists>vc. check_customer cd = Inr vc \<and>
    customers (committed s') = fst (upsert_customer vc (customers db))"
proof -
  from create_order_accepted [OF assms(1)] obtain vc ds lines stored t4 where
    p: "check_request req = Pass (vc, ds)"
    and fl: "flush_order_items b lines
         (db\<lparr>customers := fst (upsert_customer vc (customers db)),
            orders := orders db @
              [new_order req oid (snd (upsert_customer vc (customers db))) stored]\<rparr>)
         (add_order_items oid lines
           (db\<lparr>customers := fst (upsert_customer vc (customers db)),
              orders := orders db @
                [new_order req oid (snd (upsert_customer vc (customers db))) stored]\<rparr>))
         = Some t4"
    and s': "s' = fresh t4"
    by blast
  from check_request_Pass(3) [OF p] assms(2) have "check_customer cd = Inr vc" by simp
  with s' flush_order_items_Some(1) [OF fl] show ?thesis by simp
qed

lemma accepted_stock:
  assumes "create_order b f (fresh db) req = (Inr (oid, tot), s')"
    and "req_items req = Val ds"
  shows "\<exists>lines. map (check_line (items db)) ds = map Inr lines \<and>
    (\<forall>k. items (committed s') k =
       map_option (\<lambda>it. it\<lparr>quantity_left := quantity_left it -
          sum_list (map ol_quantity (filter (\<lambda>l. ol_item l = k) lines))\<rparr>) (items db k))"
proof -
  from create_order_accepted [OF assms(1)] obtain vc ds' lines stored t4 where
    p: "check_request req = Pass (vc, ds')"
    and v: "validate_items (items db) ds' 0 [] = Inr (tot, lines)"
    and fl: "flush_order_items b lines
         (db\<lparr>customers := fst (upsert_customer vc (customers db)),
            orders := orders db @
              [new_order req oid (snd (upsert_customer vc (customers db))) stored]\<rparr>)
         (add_order_items oid lines
           (db\<lparr>customers := fst (upsert_customer vc (customers db)),
              orders := orders db @
                [new_order req oid (snd (upsert_customer vc (customers db))) stored]\<rparr>))
         = Some t4"
    and s': "s' = fresh t4"
    by blast
  from check_request_Pass(1) [OF p] assms(2) have ds: "ds' = ds" by simp
  from validate_items_Inr [OF v] ds have m: "map (check_line (items db)) ds = map Inr lines"
    by simp
  from s' flush_order_items_Some(3) [OF fl] m show ?thesis
    by (auto simp: add_order_items_stock)
qed



lemma create_order_first_failure:
  assumes "check_request req = Pass (vc, pre @ d # post)"
    and "\<forall>x\<in>set pre. \<not> isl (check_line (items db) x)"
    and "check_line (items db) d = Inl e"
  shows "create_order b f (fresh db) req = (Inl e, fresh db)"
  using assms validate_items_first_failure [of pre "items db" d e post 0 "[]"]
  by (simp add: create_order_def)

lemma create_order_bad_line_rejected:
  assumes "req_items req = Val ds" and "d \<in> set ds"
    and "isl (check_line (items db) d)"
  shows "\<exists>e. create_order b f (fresh db) req = (Inl e, fresh db)"
proof (cases "check_request req")
  case (Reject e)
  then show ?thesis by (simp add: create_order_def)
next
  case Raise
  then show ?thesis by (simp add: create_order_def)
next
  case (Pass p)
  obtain vc ds' where p: "p = (vc, ds')" by (cases p)
  with Pass check_request_Pass(1) [of req vc ds'] assms(1) have ds: "ds' = ds" by simp
  show ?thesis
  proof (cases "validate_items (items db) ds 0 []")
    case (Inl e)
    with Pass p ds show ?thesis by (simp add: create_order_def)
  next
    case (Inr r)
    from validate_items_all_pass [OF Inr assms(2)] assms(3) show ?thesis by simp
  qed
qed










subsection \<open>Accepted orders\<close>







subsection \<open>Failures after validation\<close>




subsection \<open>The stock invariant\<close>

text \<open>
  Claim C8. When an accepted request's line items name pairwise distinct items, every
  item a line names has a non-negative \<open>quantity_left\<close> afterwards, and if no stored item
  had negative stock before the request then none has afterwards.
\<close>

theorem distinct_items_stock_nonnegative:
  assumes "create_order b f (fresh db) req = (Inr (oid, tot), s')"
    and "req_items req = Val ds"
    and "distinct (map (\<lambda>d. get (li_item_id d)) ds)"
  shows "(\<forall>d\<in>set ds. \<forall>i. get (li_item_id d) = Some i \<longrightarrow>
            (\<exists>it. items (committed s') i = Some it \<and> 0 \<le> quantity_left it)) \<and>
         ((\<forall>k it. items db k = Some it \<longrightarrow> 0 \<le> quantity_left it) \<longrightarrow>
          (\<forall>k it. items (committed s') k = Some it \<longrightarrow> 0 \<le> quantity_left it))"
proof -
  from accepted_stock [OF assms(1,2)] obtain lines where
    m: "map (check_line (items db)) ds = map Inr lines"
    and st: "\<forall>k. items (committed s') k =
       map_option (\<lambda>it. it\<lparr>quantity_left := quantity_left it -
          sum_list (map ol_quantity (filter (\<lambda>l. ol_item l = k) lines))\<rparr>) (items db k)"
    by blast
  have ids: "map (\<lambda>d. get (li_item_id d)) ds = map (\<lambda>l. Some (ol_item l)) lines"
    using lines_of_request [OF m, THEN arg_cong, of "map fst"] by (simp add: comp_def)
  with assms(3) have dist: "distinct (map ol_item lines)"
    by (simp add: distinct_map comp_def inj_on_def)
  have stock: "items (committed s') k =
     map_option (\<lambda>it. it\<lparr>quantity_left := quantity_left it -
        (case find (\<lambda>l. ol_item l = k) lines of None \<Rightarrow> 0 | Some l \<Rightarrow> ol_quantity l)\<rparr>)
       (items db k)" for k
    by (simp add: st sum_list_filter_distinct [OF dist])
  have line_ok: "\<exists>it. items db (ol_item l) = Some it \<and> ol_quantity l \<le> quantity_left it"
    if "l \<in> set lines" for l
  proof -
    from that m have "Inr l \<in> set (map (check_line (items db)) ds)" by simp
    then obtain d where "check_line (items db) d = Inr l" by auto
    from check_line_Inr(4) [OF this] show ?thesis by blast
  qed
  have found: "0 \<le> quantity_left it'"
    if "find (\<lambda>l. ol_item l = k) lines = Some l" and "items (committed s') k = Some it'" for k l it'
  proof -
    from that(1) have l: "l \<in> set lines" and k: "ol_item l = k"
      by (auto simp: find_Some_iff)
    from line_ok [OF l] k obtain it where "items db k = Some it" "ol_quantity l \<le> quantity_left it"
      by auto
    with that stock [of k] show ?thesis by auto
  qed
  have a: "\<forall>d\<in>set ds. \<forall>i. get (li_item_id d) = Some i \<longrightarrow>
            (\<exists>it. items (committed s') i = Some it \<and> 0 \<le> quantity_left it)"
  proof (intro ballI allI impI)
    fix d i assume d: "d \<in> set ds" and i: "get (li_item_id d) = Some i"
    then have "Some i \<in> set (map (\<lambda>d. get (li_item_id d)) ds)" by force
    with ids obtain l where l: "l \<in> set lines" and li: "ol_item l = i" by auto
    then obtain l' where f: "find (\<lambda>l. ol_item l = i) lines = Some l'"
      by (cases "find (\<lambda>l. ol_item l = i) lines") (auto simp: find_None_iff)
    then have "l' \<in> set lines" "ol_item l' = i" by (auto simp: find_Some_iff)
    with line_ok [of l'] obtain it where it: "items db i = Some it" by auto
    with stock [of i] obtain it' where it': "items (committed s') i = Some it'" by auto
    from found [OF f it'] it' show "\<exists>it. items (committed s') i = Some it \<and> 0 \<le> quantity_left it"
      by blast
  qed
  have b: "(\<forall>k it. items db k = Some it \<longrightarrow> 0 \<le> quantity_left it) \<longrightarrow>
          (\<forall>k it. items (committed s') k = Some it \<longrightarrow> 0 \<le> quantity_left it)"
  proof (intro impI allI)
    fix k it' assume inv: "\<forall>k it. items db k = Some it \<longrightarrow> 0 \<le> quantity_left it"
      and it': "items (committed s') k = Some it'"
    show "0 \<le> quantity_left it'"
    proof (cases "find (\<lambda>l. ol_item l = k) lines")
      case None
      with stock [of k] it' have "items db k = Some it'"
        by (simp add: option.map_ident)
      with inv show ?thesis by blast
    next
      case (Some l)
      from found [OF Some it'] show ?thesis .
    qed
  qed
  from a b show ?thesis by blast
qed

theorem distinct_items_stock_nonnegative_witness:
  "fst (create_order ieee_backend NoFault (fresh shop) (order_request ''b@x'' [line 1 5 10, line 2 2 7])) =
     Inr (1, 64) \<and>
   distinct (map (\<lambda>d. get (li_item_id d)) [line 1 5 10, line 2 2 7]) \<and>
   map_option quantity_left
     (items (committed (snd (create_order ieee_backend NoFault (fresh shop)
        (order_request ''b@x'' [line 1 5 10, line 2 2 7])))) 1) = Some 0 \<and>
   map_option quantity_left
     (items (committed (snd (create_order ieee_backend NoFault (fresh shop)
        (order_request ''b@x'' [line 1 5 10, line 2 2 7])))) 2) = Some 0"
  using distinct_items_stock_nonnegative [of ieee_backend NoFault shop
      "order_request ''b@x'' [line 1 5 10, line 2 2 7]" 1 64
      "snd (create_order ieee_backend NoFault (fresh shop) (order_request ''b@x'' [line 1 5 10, line 2 2 7]))"
      "[line 1 5 10, line 2 2 7]"]
  by (simp add: handler_defs example_defs ieee_defs)

text \<open>
  Claim C1. The claim's invariant, that \<open>quantity_left\<close> never goes negative, fails on
  the code: each line item is checked against the stock as it was before the request
  (line 690), and the decrements of line 765 add up. Two lines of quantity 3 for an item
  with stock 5 both pass, the order is accepted, and the stock ends at -1.
\<close>

theorem duplicate_lines_negative_stock:
  "map_option quantity_left (items shop 1) = Some 5 \<and>
   fst (create_order ieee_backend NoFault (fresh shop) (order_request ''b@x'' [line 1 3 10, line 1 3 10])) =
     Inr (1, 60) \<and>
   map_option quantity_left
     (items (committed (snd (create_order ieee_backend NoFault (fresh shop)
        (order_request ''b@x'' [line 1 3 10, line 1 3 10])))) 1) = Some (- 1)"
  by (simp add: handler_defs example_defs ieee_defs)

text \<open>
  A request with a line item whose quantity (1 when the key is absent) exceeds the stock
  of the item it names is rejected, and no table changes. The witness is the spec's
  second example: stock 2, quantity 5.
\<close>

theorem insufficient_stock_rejects_order:
  assumes "req_items req = Val ds" and "d \<in> set ds"
    and "get (li_item_id d) = Some i" and "items db i = Some it"
    and "get_default (li_quantity d) 1 = Some q" and "quantity_left it < q"
  shows "\<exists>e. create_order b f (fresh db) req = (Inl e, fresh db)"
proof -
  have "isl (check_line (items db) d)"
    using assms(3-6) by (cases "get (li_price d)") (simp_all add: check_line_def)
  from create_order_bad_line_rejected [OF assms(1,2) this] show ?thesis .
qed

theorem insufficient_stock_rejects_order_witness:
  "map_option quantity_left (items shop 2) = Some 2 \<and>
   create_order ieee_backend NoFault (fresh shop) (order_request ''b@x'' [line 2 5 7]) =
     (Inl (InsufficientStock ''B'' 2), fresh shop)"
  using insufficient_stock_rejects_order [of "order_request ''b@x'' [line 2 5 7]" "[line 2 5 7]"
      "line 2 5 7" 2 shop item_B 5 ieee_backend NoFault]
  by (simp add: handler_defs example_defs ieee_defs)

subsection \<open>The checks on a line item\<close>







text \<open>
  Claim C9, amended. A request with a line item whose quantity or price is present and 0
  is rejected and no table changes, whatever item the line names. The error is the
  incomplete-line-item error (status 400) when the request passes the checks before the
  item loop and every earlier line item passes all of its checks.
\<close>

theorem zero_quantity_or_price_rejected:
  assumes "req_items req = Val ds" and "d \<in> set ds"
    and "li_quantity d = Val 0 \<or> li_price d = Val 0"
  shows "(\<exists>e. create_order b f (fresh db) req = (Inl e, fresh db)) \<and>
         (passes_header req \<and>
          (\<exists>pre post. ds = pre @ d # post \<and> (\<forall>x\<in>set pre. \<not> isl (check_line (items db) x))) \<longrightarrow>
          create_order b f (fresh db) req = (Inl IncompleteItem, fresh db)) \<and>
         status_code IncompleteItem = 400"
proof -
  from assms(3) have line: "check_line (items db) d = Inl IncompleteItem"
    by (auto simp: check_line_def)
  then have "isl (check_line (items db) d)" by simp
  from create_order_bad_line_rejected [OF assms(1,2) this]
  have a: "\<exists>e. create_order b f (fresh db) req = (Inl e, fresh db)" .
  have b: "create_order b f (fresh db) req = (Inl IncompleteItem, fresh db)"
    if h: "passes_header req" and ds: "ds = pre @ d # post"
      and pre: "\<forall>x\<in>set pre. \<not> isl (check_line (items db) x)"
    for pre post
  proof -
    from h assms(1) ds obtain vc where p: "check_request req = Pass (vc, pre @ d # post)"
      by (auto elim: passes_headerE)
    from create_order_first_failure [OF p pre line] show ?thesis .
  qed
  from a b show ?thesis by auto
qed

theorem zero_quantity_or_price_rejected_witness:
  "map_option quantity_left (items shop 1) = Some 5 \<and>
   create_order ieee_backend NoFault (fresh shop) (order_request ''b@x'' [line 2 1 7, line 1 0 10]) =
     (Inl IncompleteItem, fresh shop) \<and>
   create_order ieee_backend NoFault (fresh shop) (order_request ''b@x'' [line 1 3 0]) =
     (Inl IncompleteItem, fresh shop)"
proof -
  have a: "\<exists>pre post. [line 2 1 7, line 1 0 10] = pre @ line 1 0 10 # post \<and>
      (\<forall>x\<in>set pre. \<not> isl (check_line (items shop) x))"
    by (intro exI [of _ "[line 2 1 7]"] exI [of _ "[]"])
      (simp add: handler_defs example_defs ieee_defs)
  have b: "\<exists>pre post. [line 1 3 0] = pre @ line 1 3 0 # post \<and>
      (\<forall>x\<in>set pre. \<not> isl (check_line (items shop) x))"
    by (intro exI [of _ "[]"] exI [of _ "[]"]) simp
  from a b
    zero_quantity_or_price_rejected [of "order_request ''b@x'' [line 2 1 7, line 1 0 10]"
      "[line 2 1 7, line 1 0 10]" "line 1 0 10" ieee_backend NoFault shop]
    zero_quantity_or_price_rejected [of "order_request ''b@x'' [line 1 3 0]"
      "[line 1 3 0]" "line 1 3 0" ieee_backend NoFault shop]
  show ?thesis
    by (simp add: example_defs passes_header_def check_request_def check_customer_def)
qed

text \<open>
  Claim C9 as stated fails: an earlier line item naming an unknown item is reported
  first, with status 404.
\<close>

theorem zero_quantity_other_error:
  "li_quantity (line 1 0 10) = Val 0 \<and>
   fst (create_order ieee_backend NoFault (fresh shop) (order_request ''b@x'' [line 9 1 10, line 1 0 10])) =
     Inl (ItemNotFound 9) \<and>
   status_code (ItemNotFound 9) = 404"
  by (simp add: handler_defs example_defs ieee_defs)

subsection \<open>The customer upsert\<close>

text \<open>
  Claim C5, amended. For an accepted request: if a stored customer has the request's
  email, the customer table keeps its length, ids and emails, and the first row with that
  email now holds the request's first name, last name, phone, address, city, postal code
  (empty when absent) and country (TW when absent); if no stored customer has that email,
  the table grows by exactly one row with that email, a new id and the request's values,
  the country being TW also when the request gives \<open>null\<close> for it.
\<close>

theorem upsert_by_email:
  assumes "create_order b f (fresh db) req = (Inr (oid, tot), s')"
    and "req_customer req = Val cd" and "cd_email cd = Val e"
  shows "(find (\<lambda>c. email c = e) (customers db) \<noteq> None \<longrightarrow>
           length (customers (committed s')) = length (customers db) \<and>
           map c_id (customers (committed s')) = map c_id (customers db) \<and>
           map email (customers (committed s')) = map email (customers db) \<and>
           (\<exists>c'. find (\<lambda>c. email c = e) (customers (committed s')) = Some c' \<and>
              Val (first_name c') = cd_first_name cd \<and>
              Val (last_name c') = cd_last_name cd \<and>
              phone c' = get (cd_phone cd) \<and>
              address c' = get (cd_address cd) \<and>
              city c' = get (cd_city cd) \<and>
              postal_code c' = get_default (cd_postal_code cd) '''' \<and>
              country c' = get_default (cd_country cd) ''TW'')) \<and>
         (find (\<lambda>c. email c = e) (customers db) = None \<longrightarrow>
           (\<exists>c'. customers (committed s') = customers db @ [c'] \<and>
              email c' = e \<and> c_id c' \<notin> set (map c_id (customers db)) \<and>
              Val (first_name c') = cd_first_name cd \<and>
              Val (last_name c') = cd_last_name cd \<and>
              phone c' = get (cd_phone cd) \<and>
              address c' = get (cd_address cd) \<and>
              city c' = get (cd_city cd) \<and>
              postal_code c' = get_default (cd_postal_code cd) '''' \<and>
              country c' =
                (case get_default (cd_country cd) ''TW'' of
                   None \<Rightarrow> Some ''TW''
                 | Some x \<Rightarrow> Some x)))"
proof -
  from accepted_customers [OF assms(1,2)] obtain vc where
    vc: "check_customer cd = Inr vc"
    and cs: "customers (committed s') = fst (upsert_customer vc (customers db))"
    by blast
  note v = check_customer_Inr [OF vc]
  from v(5) assms(3) have e: "vc_email vc = e" by simp
  let ?f = "\<lambda>c. c\<lparr>first_name := vc_first_name vc,
                   last_name := vc_last_name vc,
                   phone := Some (vc_phone vc),
                   address := Some (vc_address vc),
                   city := Some (vc_city vc),
                   postal_code := vc_postal_code vc,
                   country := vc_country vc\<rparr>"
  have existing: "length (customers (committed s')) = length (customers db) \<and>
           map c_id (customers (committed s')) = map c_id (customers db) \<and>
           map email (customers (committed s')) = map email (customers db) \<and>
           (\<exists>c'. find (\<lambda>c. email c = e) (customers (committed s')) = Some c' \<and>
              Val (first_name c') = cd_first_name cd \<and>
              Val (last_name c') = cd_last_name cd \<and>
              phone c' = get (cd_phone cd) \<and>
              address c' = get (cd_address cd) \<and>
              city c' = get (cd_city cd) \<and>
              postal_code c' = get_default (cd_postal_code cd) '''' \<and>
              country c' = get_default (cd_country cd) ''TW'')"
    if "find (\<lambda>c. email c = e) (customers db) = Some c" for c
  proof -
    from update_first_split [OF that, of ?f] obtain pre post where
      split: "customers db = pre @ c # post" "\<forall>x\<in>set pre. email x \<noteq> e" "email c = e"
      and upd: "update_first (\<lambda>c. email c = e) ?f (customers db) = pre @ ?f c # post"
      by blast
    from cs that e upd have new: "customers (committed s') = pre @ ?f c # post"
      by (simp add: upsert_customer_def)
    have "find (\<lambda>c. email c = e) (pre @ ?f c # post) = Some (?f c)"
      using split(2,3) by (induction pre) auto
    with new split v show ?thesis by simp
  qed
  have fresh_row: "\<exists>c'. customers (committed s') = customers db @ [c'] \<and>
              email c' = e \<and> c_id c' \<notin> set (map c_id (customers db)) \<and>
              Val (first_name c') = cd_first_name cd \<and>
              Val (last_name c') = cd_last_name cd \<and>
              phone c' = get (cd_phone cd) \<and>
              address c' = get (cd_address cd) \<and>
              city c' = get (cd_city cd) \<and>
              postal_code c' = get_default (cd_postal_code cd) '''' \<and>
              country c' =
                (case get_default (cd_country cd) ''TW'' of
                   None \<Rightarrow> Some ''TW''
                 | Some x \<Rightarrow> Some x)"
    if "find (\<lambda>c. email c = e) (customers db) = None"
  proof -
    have "next_id (map c_id (customers db)) \<notin> set (map c_id (customers db))"
      using next_id_fresh [of "next_id (map c_id (customers db))" "map c_id (customers db)"]
      by auto
    with cs that e v show ?thesis
      by (simp add: upsert_customer_def Let_def)
  qed
  from existing fresh_row show ?thesis by auto
qed

theorem upsert_by_email_witness:
  "fst (create_order ieee_backend NoFault (fresh shop) (order_request ''a@x'' [line 1 3 10])) = Inr (1, 30) \<and>
   map email (customers (committed (snd (create_order ieee_backend NoFault (fresh shop)
      (order_request ''a@x'' [line 1 3 10]))))) = [''a@x''] \<and>
   map first_name (customers (committed (snd (create_order ieee_backend NoFault (fresh shop)
      (order_request ''a@x'' [line 1 3 10]))))) = [''Ann''] \<and>
   fst (create_order ieee_backend NoFault (fresh shop) (order_request ''b@x'' [line 1 3 10])) = Inr (1, 30) \<and>
   map email (customers (committed (snd (create_order ieee_backend NoFault (fresh shop)
      (order_request ''b@x'' [line 1 3 10]))))) = [''a@x'', ''b@x''] \<and>
   map c_id (customers (committed (snd (create_order ieee_backend NoFault (fresh shop)
      (order_request ''b@x'' [line 1 3 10]))))) = [1, 2] \<and>
   map country (customers (committed (snd (create_order ieee_backend NoFault (fresh shop)
      ((order_request ''b@x'' [line 1 3 10])
         \<lparr>req_customer := Val ((contact ''b@x'')\<lparr>cd_country := Null\<rparr>)\<rparr>))))) =
     [Some ''JP'', Some ''TW'']"
  using upsert_by_email [of ieee_backend NoFault shop "order_request ''a@x'' [line 1 3 10]" 1 30
      "snd (create_order ieee_backend NoFault (fresh shop) (order_request ''a@x'' [line 1 3 10]))"
      "contact ''a@x''" "''a@x''"]
    upsert_by_email [of ieee_backend NoFault shop "order_request ''b@x'' [line 1 3 10]" 1 30
      "snd (create_order ieee_backend NoFault (fresh shop) (order_request ''b@x'' [line 1 3 10]))"
      "contact ''b@x''" "''b@x''"]
    upsert_by_email [of ieee_backend NoFault shop
      "(order_request ''b@x'' [line 1 3 10])
         \<lparr>req_customer := Val ((contact ''b@x'')\<lparr>cd_country := Null\<rparr>)\<rparr>" 1 30
      "snd (create_order ieee_backend NoFault (fresh shop)
         ((order_request ''b@x'' [line 1 3 10])
            \<lparr>req_customer := Val ((contact ''b@x'')\<lparr>cd_country := Null\<rparr>)\<rparr>))"
      "(contact ''b@x'')\<lparr>cd_country := Null\<rparr>" "''b@x''"]
  by (simp add: handler_defs example_defs ieee_defs)

text \<open>
  Claim C5 as stated fails for a request that is rejected: the stored customer keeps
  its fields, and no customer row is created for a new email.
\<close>

theorem rejected_order_leaves_customer:
  "map email (customers shop) = [''a@x''] \<and>
   cd_email (contact ''a@x'') = Val ''a@x'' \<and>
   cd_first_name (contact ''a@x'') = Val ''Ann'' \<and>
   fst (create_order ieee_backend NoFault (fresh shop) (order_request ''a@x'' [line 2 5 7])) =
     Inl (InsufficientStock ''B'' 2) \<and>
   map first_name (customers (committed (snd (create_order ieee_backend NoFault (fresh shop)
      (order_request ''a@x'' [line 2 5 7]))))) = [''Alice''] \<and>
   customers (committed (snd (create_order ieee_backend NoFault (fresh shop)
      (order_request ''b@x'' [line 2 5 7])))) = customers shop"
  by (simp add: handler_defs example_defs ieee_defs)

text \<open>
  Claim C10. On the update path of an accepted request (a stored customer \<open>c\<close> has the
  request's email) the customer table changes in that one row only; the row keeps its id
  and its email, and its seven other columns hold the request's values (an absent
  postal code is stored empty, an absent country as TW).
\<close>

theorem upsert_update_frame:
  assumes "create_order b f (fresh db) req = (Inr (oid, tot), s')"
    and "req_customer req = Val cd" and "cd_email cd = Val e"
    and "find (\<lambda>c. email c = e) (customers db) = Some c"
  shows "\<exists>pre post c'. customers db = pre @ c # post \<and> (\<forall>x\<in>set pre. email x \<noteq> e) \<and>
      customers (committed s') = pre @ c' # post \<and>
      c_id c' = c_id c \<and> email c' = email c \<and>
      Val (first_name c') = cd_first_name cd \<and>
      Val (last_name c') = cd_last_name cd \<and>
      phone c' = get (cd_phone cd) \<and>
      address c' = get (cd_address cd) \<and>
      city c' = get (cd_city cd) \<and>
      postal_code c' = get_default (cd_postal_code cd) '''' \<and>
      country c' = get_default (cd_country cd) ''TW''"
proof -
  from accepted_customers [OF assms(1,2)] obtain vc where
    vc: "check_customer cd = Inr vc"
    and cs: "customers (committed s') = fst (upsert_customer vc (customers db))"
    by blast
  note v = check_customer_Inr [OF vc]
  from v(5) assms(3) have e: "vc_email vc = e" by simp
  let ?f = "\<lambda>c. c\<lparr>first_name := vc_first_name vc,
                   last_name := vc_last_name vc,
                   phone := Some (vc_phone vc),
                   address := Some (vc_address vc),
                   city := Some (vc_city vc),
                   postal_code := vc_postal_code vc,
                   country := vc_country vc\<rparr>"
  from update_first_split [OF assms(4), of ?f] obtain pre post where
    split: "customers db = pre @ c # post" "\<forall>x\<in>set pre. email x \<noteq> e"
    and upd: "update_first (\<lambda>c. email c = e) ?f (customers db) = pre @ ?f c # post"
    by blast
  from cs assms(4) e upd have "customers (committed s') = pre @ ?f c # post"
    by (simp add: upsert_customer_def)
  with split v show ?thesis
    by (intro exI [of _ pre] exI [of _ post] exI [of _ "?f c"]) simp
qed

theorem upsert_update_frame_witness:
  "fst (create_order ieee_backend NoFault (fresh shop) (order_request ''a@x'' [line 1 3 10])) = Inr (1, 30) \<and>
   find (\<lambda>c. email c = ''a@x'') (customers shop) = Some alice \<and>
   customers (committed (snd (create_order ieee_backend NoFault (fresh shop)
      (order_request ''a@x'' [line 1 3 10])))) =
     [\<lparr>c_id = 1, first_name = ''Ann'', last_name = ''Wu'', email = ''a@x'',
       phone = Some ''0922'', address = Some ''New Road'', city = Some ''Tainan'',
       postal_code = Some '''', country = Some ''TW''\<rparr>]"
  using upsert_update_frame [of ieee_backend NoFault shop "order_request ''a@x'' [line 1 3 10]" 1 30
      "snd (create_order ieee_backend NoFault (fresh shop) (order_request ''a@x'' [line 1 3 10]))"
      "contact ''a@x''" "''a@x''" alice]
  by (simp add: handler_defs example_defs ieee_defs)

end
